theory Spec2Isabelle
  imports
    Main
    "HOL-Library.Sublist"
    "HOL-Library.Char_ord"
    "HOL-Library.List_Lexorder"
    "HOL-Library.Multiset"
begin

section \<open>The record vault of app.js\<close>

text \<open>
  The program is a menu loop over one MongoDB collection (through Mongoose), a directory
  of backup files and one export file. The model keeps these three as an explicit
  \<open>world\<close>, threads it through every menu action, and returns what the action
  reports as a value: a failure or an early return is \<open>Inl\<close> of an \<open>error\<close>,
  a completed action is \<open>Inr\<close> of what it displays.

  What the operator types (the answers to \<open>readlineSync.question\<close>), the identifier
  the driver generates for a new document, and the time that passes before each reading
  of the wall clock are arguments of the action.

  Text is \<open>string\<close>. The operator's input is taken to be ASCII, where bytes, UTF-16
  units and code points coincide; case conversion is given on the letters A to Z.
\<close>

subsection \<open>Text primitives of the JavaScript runtime\<close>

definition isSpace :: "char \<Rightarrow> bool" where
  \<comment> \<open>the white space that \<open>String.prototype.trim\<close> removes: TAB, LF, VT, FF, CR, SP,
      and the no-break space U+00A0, the one further white space below 256\<close>
  "isSpace c = (let n = (of_char c :: nat) in (9 \<le> n \<and> n \<le> 13) \<or> n = 32 \<or> n = 160)"

definition trim :: "string \<Rightarrow> string" where
  "trim s = rev (dropWhile isSpace (rev (dropWhile isSpace s)))"

definition lowerChar :: "char \<Rightarrow> char" where
  "lowerChar c = (let n = (of_char c :: nat) in if 65 \<le> n \<and> n \<le> 90 then char_of (n + 32) else c)"

definition toLowerCase :: "string \<Rightarrow> string" where
  "toLowerCase s = map lowerChar s"

definition digit :: "nat \<Rightarrow> char" where
  "digit n = ''0123456789'' ! (n mod 10)"

fun decimal :: "nat \<Rightarrow> string" where
  \<comment> \<open>a non-negative integer inside a template literal\<close>
  "decimal n = (if n < 10 then [digit n] else decimal (n div 10) @ [digit n])"

declare decimal.simps [simp del]

text \<open>The last two, three, four and six decimal digits of a number, zero filled.\<close>

definition pad2 :: "nat \<Rightarrow> string" where
  "pad2 n = [digit (n div 10), digit n]"

definition pad3 :: "nat \<Rightarrow> string" where
  "pad3 n = digit (n div 100) # pad2 n"

definition pad4 :: "nat \<Rightarrow> string" where
  "pad4 n = digit (n div 1000) # pad3 n"

definition pad6 :: "nat \<Rightarrow> string" where
  "pad6 n = digit (n div 100000) # digit (n div 10000) # pad4 n"

definition join :: "string \<Rightarrow> string list \<Rightarrow> string" where
  \<comment> \<open>\<open>Array.prototype.join\<close>\<close>
  "join sep xs = (case xs of [] \<Rightarrow> [] | y # ys \<Rightarrow> y @ concat (map (\<lambda>z. sep @ z) ys))"

subsection \<open>Dates\<close>

text \<open>
  A \<open>Date\<close> is its number of milliseconds since the epoch. \<open>toISOString\<close> renders it in
  UTC as \<open>YYYY-MM-DDTHH:mm:ss.sssZ\<close>, with the expanded form \<open>+YYYYYY\<close> of the year
  after 9999; the day count is turned into a civil date by the usual era arithmetic.
\<close>

definition civil :: "nat \<Rightarrow> nat \<times> nat \<times> nat" where
  \<comment> \<open>year, month, day of a number of days since 1970-01-01\<close>
  "civil days =
     (let z = days + 719468;
          era = z div 146097;
          doe = z mod 146097;
          yoe = (doe - doe div 1460 + doe div 36524 - doe div 146096) div 365;
          doy = doe - (365 * yoe + yoe div 4 - yoe div 100);
          mp = (5 * doy + 2) div 153;
          d = doy - (153 * mp + 2) div 5 + 1;
          m = (if mp < 10 then mp + 3 else mp - 9);
          y = yoe + era * 400 + (if m \<le> 2 then 1 else 0)
      in (y, m, d))"

definition toISOString :: "nat \<Rightarrow> string" where
  "toISOString ms =
     (let secs = ms div 1000;
          (y, m, d) = civil (secs div 86400);
          sod = secs mod 86400
      in (if y \<le> 9999 then pad4 y else ''+'' @ pad6 y) @ ''-'' @ pad2 m @ ''-'' @ pad2 d
         @ ''T'' @ pad2 (sod div 3600) @ '':'' @ pad2 (sod mod 3600 div 60) @ '':''
         @ pad2 (sod mod 60) @ ''.'' @ pad3 (ms mod 1000) @ ''Z'')"

definition formatDate :: "(nat \<Rightarrow> string) \<Rightarrow> nat option \<Rightarrow> string" where
  \<comment> \<open>\<open>toLocaleString\<close> depends on the host's locale and time zone: it is the argument \<open>loc\<close>\<close>
  "formatDate loc date = (case date of None \<Rightarrow> ''N/A'' | Some t \<Rightarrow> loc t)"

subsection \<open>Data model\<close>

type_synonym objectid = string
  \<comment> \<open>an ObjectId, as the driver prints it\<close>

record Record =
  oid :: objectid
  name :: string
  details :: string
  createdAt :: nat
  updatedAt :: nat

datatype contents =
  Json "Record list"   \<comment> \<open>\<open>JSON.stringify(records, null, 2)\<close>: the array that is serialised\<close>
| Text string

datatype query =
  Insert | FindById objectid | UpdateOne objectid | FindByIdAndDelete objectid
| Find | FindOne | CountDocuments | Aggregate

record world =
  store :: "Record list"              \<comment> \<open>the collection, in insertion order\<close>
  files :: "string \<rightharpoonup> contents"     \<comment> \<open>paths below \<open>__dirname\<close>\<close>
  clock :: nat                        \<comment> \<open>the last reading of the wall clock, in ms\<close>
  queries :: "query list"             \<comment> \<open>every request sent to the store so far\<close>

datatype error =
  ValidationError    \<comment> \<open>'Name is required...', 'Search term is required.', 'ID is required.'\<close>
| InvalidId          \<comment> \<open>'Invalid ID format.'\<close>
| NotFound           \<comment> \<open>'Record not found.'\<close>
| Cancelled          \<comment> \<open>'Delete operation cancelled.'\<close>
| InvalidSelection   \<comment> \<open>'Invalid choice.', 'Invalid selection.'\<close>
| ValidatorError     \<comment> \<open>thrown by the schema's \<open>required\<close> validator\<close>
| CastError          \<comment> \<open>thrown when a value does not cast to ObjectId\<close>
| DuplicateKey       \<comment> \<open>thrown by the unique index on \<open>_id\<close>\<close>
| PatternNotCovered  \<comment> \<open>a search pattern outside the fragment of regular expressions modelled here\<close>

definition EXPORT_FILE_PATH :: string where
  "EXPORT_FILE_PATH = ''export.txt''"

definition BACKUPS_DIR :: string where
  "BACKUPS_DIR = ''backups''"

definition path_join :: "string \<Rightarrow> string \<Rightarrow> string" where
  "path_join dir file = dir @ ''/'' @ file"

definition initial :: "nat \<Rightarrow> world" where
  \<comment> \<open>an empty collection and an empty directory when the program starts at time \<open>t0\<close>\<close>
  "initial t0 = \<lparr>store = [], files = Map.empty, clock = t0, queries = []\<rparr>"

subsection \<open>The store: Mongoose over one collection\<close>

text \<open>
  The wall clock is read as the previous reading plus the time \<open>d\<close> that has passed.
  The sorts of the \<open>find\<close> queries, which are on dates, are taken stable over the
  collection's insertion order, in both directions. The \<open>$sort\<close> stage of the
  aggregation pipeline is on the length of the name, and the store fixes no order among
  documents of equal length: the order it happens to choose among them is an argument
  of the pipeline (see \<open>longestNameAggregate\<close>).
\<close>

definition sortAsc :: "('a \<Rightarrow> 'k::linorder) \<Rightarrow> 'a list \<Rightarrow> 'a list" where
  "sortAsc key xs = sort_key key xs"

definition sortDesc :: "('a \<Rightarrow> 'k::linorder) \<Rightarrow> 'a list \<Rightarrow> 'a list" where
  "sortDesc key xs = rev (sort_key key (rev xs))"

definition isValidObjectId :: "(string \<Rightarrow> objectid option) \<Rightarrow> string \<Rightarrow> bool" where
  \<comment> \<open>\<open>mongoose.isValidObjectId\<close>: whether the driver's \<open>cast\<close> accepts the value\<close>
  "isValidObjectId cast v = (cast v \<noteq> None)"

definition isHex :: "char \<Rightarrow> bool" where
  "isHex c = (let n = (of_char c :: nat) in
     (48 \<le> n \<and> n \<le> 57) \<or> (65 \<le> n \<and> n \<le> 70) \<or> (97 \<le> n \<and> n \<le> 102))"

definition hexObjectId :: "string \<Rightarrow> objectid option" where
  \<comment> \<open>the cast of a 24 digit hexadecimal string, the form every driver version accepts\<close>
  "hexObjectId v = (if length v = 24 \<and> list_all isHex v then Some (toLowerCase v) else None)"

definition Record_create ::
  "objectid \<Rightarrow> nat \<Rightarrow> string \<Rightarrow> string \<Rightarrow> world \<Rightarrow> (error + Record) \<times> world" where
  \<comment> \<open>\<open>Record.create({name, details})\<close> under the schema: both strings trimmed, \<open>name\<close>
      required, \<open>timestamps: true\<close> setting both dates to one reading of the clock\<close>
  "Record_create newId d nm dt w =
     (let now = clock w + d; nm' = trim nm; dt' = trim dt in
      if nm' = [] then (Inl ValidatorError, w\<lparr>clock := now\<rparr>)
      else if newId \<in> oid ` set (store w)
        then (Inl DuplicateKey, w\<lparr>clock := now, queries := queries w @ [Insert]\<rparr>)
      else
        (let r = \<lparr>oid = newId, name = nm', details = dt', createdAt = now, updatedAt = now\<rparr>
         in (Inr r, w\<lparr>store := store w @ [r], clock := now, queries := queries w @ [Insert]\<rparr>)))"

definition findById ::
  "(string \<Rightarrow> objectid option) \<Rightarrow> string \<Rightarrow> world \<Rightarrow> (error + Record option) \<times> world" where
  "findById cast v w =
     (case cast v of
        None \<Rightarrow> (Inl CastError, w)
      | Some i \<Rightarrow> (Inr (find (\<lambda>r. oid r = i) (store w)), w\<lparr>queries := queries w @ [FindById i]\<rparr>))"

definition findByIdAndDelete ::
  "(string \<Rightarrow> objectid option) \<Rightarrow> string \<Rightarrow> world \<Rightarrow> (error + Record option) \<times> world" where
  "findByIdAndDelete cast v w =
     (case cast v of
        None \<Rightarrow> (Inl CastError, w)
      | Some i \<Rightarrow>
          (Inr (find (\<lambda>r. oid r = i) (store w)),
           w\<lparr>store := filter (\<lambda>r. oid r \<noteq> i) (store w),
             queries := queries w @ [FindByIdAndDelete i]\<rparr>))"

definition save :: "Record \<Rightarrow> Record \<Rightarrow> nat \<Rightarrow> world \<Rightarrow> Record \<times> world" where
  \<comment> \<open>\<open>record.save()\<close> of a loaded document \<open>orig\<close> whose fields now read \<open>doc\<close>: nothing is
      sent and \<open>updatedAt\<close> stays when no path was modified\<close>
  "save orig doc d w =
     (let now = clock w + d in
      if name doc = name orig \<and> details doc = details orig then (doc, w\<lparr>clock := now\<rparr>)
      else
        (let doc' = doc\<lparr>updatedAt := now\<rparr> in
         (doc', w\<lparr>store := map (\<lambda>r. if oid r = oid orig then doc' else r) (store w),
                 clock := now, queries := queries w @ [UpdateOne (oid orig)]\<rparr>)))"

subsection \<open>createBackup\<close>

definition backupTimestamp :: "nat \<Rightarrow> string" where
  \<comment> \<open>\<open>toISOString().replace(/[:T]/g, '-').split('.')[0]\<close>\<close>
  "backupTimestamp now =
     takeWhile (\<lambda>c. c \<noteq> CHR ''.'')
       (map (\<lambda>c. if c = CHR '':'' \<or> c = CHR ''T'' then CHR ''-'' else c) (toISOString now))"

definition backupPath :: "nat \<Rightarrow> string" where
  "backupPath now = path_join BACKUPS_DIR (''backup_'' @ backupTimestamp now @ ''.json'')"

definition createBackup :: "nat \<Rightarrow> world \<Rightarrow> world" where
  "createBackup d w =
     (let records = sortAsc createdAt (store w);
          now = clock w + d
      in w\<lparr>files := (files w)(backupPath now \<mapsto> Json records),
           clock := now, queries := queries w @ [Find]\<rparr>)"

subsection \<open>addRecord, updateRecord, deleteRecord\<close>

definition addRecord ::
  "string \<Rightarrow> string \<Rightarrow> objectid \<Rightarrow> nat \<Rightarrow> nat \<Rightarrow> world \<Rightarrow> (error + Record) \<times> world" where
  "addRecord nameAns detailsAns newId d1 d2 w =
     (let nm = trim nameAns in
      if nm = [] then (Inl ValidationError, w)
      else
        (let dt = trim detailsAns in
         case Record_create newId d1 nm dt w of
           (Inl e, w1) \<Rightarrow> (Inl e, w1)
         | (Inr newRecord, w1) \<Rightarrow> (Inr newRecord, createBackup d2 w1)))"

definition updateRecord ::
  "(string \<Rightarrow> objectid option) \<Rightarrow> string \<Rightarrow> string \<Rightarrow> string \<Rightarrow> nat \<Rightarrow> world
     \<Rightarrow> (error + Record) \<times> world" where
  "updateRecord cast idAns nameAns detailsAns d w =
     (let i = trim idAns in
      if \<not> isValidObjectId cast i then (Inl InvalidId, w)
      else
        (case findById cast i w of
           (Inl e, w1) \<Rightarrow> (Inl e, w1)
         | (Inr None, w1) \<Rightarrow> (Inl NotFound, w1)
         | (Inr (Some record), w1) \<Rightarrow>
             (let nm = trim nameAns;
                  record1 = (if nm \<noteq> [] then record\<lparr>name := nm\<rparr> else record);
                  dt = trim detailsAns;
                  record2 = (if dt \<noteq> [] then record1\<lparr>details := dt\<rparr> else record1);
                  (saved, w2) = save record record2 d w1
              in (Inr saved, w2))))"

definition deleteRecord ::
  "(string \<Rightarrow> objectid option) \<Rightarrow> string \<Rightarrow> string \<Rightarrow> nat \<Rightarrow> world
     \<Rightarrow> (error + Record) \<times> world" where
  "deleteRecord cast idAns confirmAns d w =
     (let i = trim idAns in
      if \<not> isValidObjectId cast i then (Inl InvalidId, w)
      else
        (let confirmation = toLowerCase (trim confirmAns) in
         if confirmation \<noteq> ''y'' then (Inl Cancelled, w)
         else
           (case findByIdAndDelete cast i w of
              (Inl e, w1) \<Rightarrow> (Inl e, w1)
            | (Inr None, w1) \<Rightarrow> (Inl NotFound, w1)
            | (Inr (Some deletedRecord), w1) \<Rightarrow> (Inr deletedRecord, createBackup d w1))))"

subsection \<open>Searching by name: the \<open>$regex\<close> operator\<close>

text \<open>
  The search term is handed to the store as a regular expression with option \<open>i\<close>,
  matched anywhere in the name. The fragment modelled is a sequence of ordinary
  characters and dots; a term that uses any other special character of the syntax is
  reported as \<open>PatternNotCovered\<close>.
\<close>

datatype atom = Lit char | AnyChar

definition metachars :: "char list" where
  "metachars = CHR 0x5C # ''^$.[]|()?*+{}''"

fun compile :: "string \<Rightarrow> atom list option" where
  "compile [] = Some []"
| "compile (c # cs) =
     (if c = CHR ''.'' then map_option ((#) AnyChar) (compile cs)
      else if c \<in> set metachars then None
      else map_option ((#) (Lit c)) (compile cs))"

fun accepts :: "atom \<Rightarrow> char \<Rightarrow> bool" where
  "accepts (Lit c) x = (lowerChar x = lowerChar c)"
| "accepts AnyChar x = (x \<noteq> CHR 0x0A)"

fun matchHere :: "atom list \<Rightarrow> string \<Rightarrow> bool" where
  "matchHere [] s = True"
| "matchHere (a # as) [] = False"
| "matchHere (a # as) (x # xs) = (accepts a x \<and> matchHere as xs)"

fun regexSearch :: "atom list \<Rightarrow> string \<Rightarrow> bool" where
  "regexSearch as [] = matchHere as []"
| "regexSearch as (x # xs) = (matchHere as (x # xs) \<or> regexSearch as xs)"

subsection \<open>listRecords, searchRecords, sortRecords\<close>

definition listRecords :: "world \<Rightarrow> (error + Record list) \<times> world" where
  "listRecords w = (Inr (sortAsc createdAt (store w)), w\<lparr>queries := queries w @ [Find]\<rparr>)"

definition searchRecords ::
  "(string \<Rightarrow> objectid option) \<Rightarrow> string \<Rightarrow> string \<Rightarrow> world
     \<Rightarrow> (error + Record list) \<times> world" where
  "searchRecords cast choiceAns termAns w =
     (let choice = trim choiceAns in
      if choice = ''1'' then
        (let nm = trim termAns in
         if nm = [] then (Inl ValidationError, w)
         else
           (case compile nm of
              None \<Rightarrow> (Inl PatternNotCovered, w)
            | Some pat \<Rightarrow>
                (Inr (sortAsc createdAt (filter (\<lambda>r. regexSearch pat (name r)) (store w))),
                 w\<lparr>queries := queries w @ [Find]\<rparr>)))
      else if choice = ''2'' then
        (let i = trim termAns in
         if i = [] then (Inl ValidationError, w)
         else if isValidObjectId cast i then
           (case findById cast i w of
              (Inl e, w1) \<Rightarrow> (Inl e, w1)
            | (Inr None, w1) \<Rightarrow> (Inr [], w1)
            | (Inr (Some record), w1) \<Rightarrow> (Inr [record], w1))
         else (Inl InvalidId, w))
      else (Inl InvalidSelection, w))"

definition sortRecords :: "string \<Rightarrow> string \<Rightarrow> world \<Rightarrow> (error + Record list) \<times> world" where
  "sortRecords fieldAns orderAns w =
     (let fieldChoice = trim fieldAns in
      if fieldChoice \<noteq> ''1'' \<and> fieldChoice \<noteq> ''2'' then (Inl InvalidSelection, w)
      else
        (let orderChoice = trim orderAns in
         if orderChoice \<noteq> ''1'' \<and> orderChoice \<noteq> ''2'' then (Inl InvalidSelection, w)
         else
           (Inr (if fieldChoice = ''1''
                 then (if orderChoice = ''1'' then sortAsc name (store w)
                       else sortDesc name (store w))
                 else (if orderChoice = ''1'' then sortAsc createdAt (store w)
                       else sortDesc createdAt (store w))),
            w\<lparr>queries := queries w @ [Find]\<rparr>)))"

subsection \<open>exportData\<close>

definition basename :: "string \<Rightarrow> string" where
  "basename p = rev (takeWhile (\<lambda>c. c \<noteq> CHR ''/'') (rev p))"

definition orNA :: "string \<Rightarrow> string" where
  \<comment> \<open>\<open>value || 'N/A'\<close> on a string\<close>
  "orNA s = (if s = [] then ''N/A'' else s)"

definition recordLines :: "(nat \<Rightarrow> string) \<Rightarrow> nat \<Rightarrow> Record \<Rightarrow> string list" where
  "recordLines loc index record =
     [''#'' @ decimal (index + 1),
      ''ID: '' @ oid record,
      ''Name: '' @ name record,
      ''Details: '' @ orNA (details record),
      ''Created: '' @ formatDate loc (Some (createdAt record)),
      ''Updated: '' @ formatDate loc (Some (updatedAt record)),
      []]"

definition exportHeader :: "(nat \<Rightarrow> string) \<Rightarrow> nat \<Rightarrow> Record list \<Rightarrow> string list" where
  "exportHeader loc now records =
     [''Export Timestamp: '' @ formatDate loc (Some now),
      ''Total Records: '' @ decimal (length records),
      ''File: '' @ basename EXPORT_FILE_PATH,
      ''------------------------------'']"

definition exportLines :: "(nat \<Rightarrow> string) \<Rightarrow> Record list \<Rightarrow> string list" where
  \<comment> \<open>\<open>records.flatMap((record, index) => [...])\<close>\<close>
  "exportLines loc records =
     concat (map (\<lambda>(index, record). recordLines loc index record) (enumerate 0 records))"

definition exportText :: "(nat \<Rightarrow> string) \<Rightarrow> nat \<Rightarrow> Record list \<Rightarrow> string" where
  "exportText loc now records =
     join [CHR 0x0A] (exportHeader loc now records) @ [CHR 0x0A, CHR 0x0A]
       @ join [CHR 0x0A] (exportLines loc records)"

definition exportData :: "(nat \<Rightarrow> string) \<Rightarrow> nat \<Rightarrow> world \<Rightarrow> world" where
  "exportData loc d w =
     (let records = sortAsc createdAt (store w);
          now = clock w + d
      in w\<lparr>files := (files w)(EXPORT_FILE_PATH \<mapsto> Text (exportText loc now records)),
           clock := now, queries := queries w @ [Find]\<rparr>)"

definition splitLines_step :: "char \<Rightarrow> string list \<Rightarrow> string list" where
  "splitLines_step c ls =
     (if c = CHR 0x0A then [] # ls
      else (case ls of [] \<Rightarrow> [[c]] | l # rest \<Rightarrow> (c # l) # rest))"

definition splitLines :: "string \<Rightarrow> string list" where
  \<comment> \<open>the lines of a text, split at every line feed: what a reader of the export
      file sees\<close>
  "splitLines s = foldr splitLines_step s [[]]"

subsection \<open>viewVaultStatistics\<close>

record statistics =
  totalRecords :: nat
  lastModification :: string
  longestName :: string
  longestNameLength :: nat
  earliestRecordDate :: string
  latestRecordDate :: string

definition findOne :: "Record list \<Rightarrow> Record option" where
  \<comment> \<open>the first document of a sorted result, \<open>null\<close> when there is none\<close>
  "findOne rs = (case rs of [] \<Rightarrow> None | r # _ \<Rightarrow> Some r)"

definition strLenCP :: "string \<Rightarrow> nat" where
  "strLenCP s = length s"

definition sortStage ::
  "('a \<Rightarrow> nat) \<Rightarrow> ('a \<Rightarrow> nat) \<Rightarrow> 'a list \<Rightarrow> 'a list" where
  \<comment> \<open>\<open>{ $sort: { key: -1 } }\<close>: descending on \<open>key\<close>; documents with equal keys come in
      the order of \<open>tie\<close>, whatever function the store's choice amounts to (and in
      insertion order where \<open>tie\<close> does not tell them apart)\<close>
  "sortStage tie key xs = sortDesc key (sort_key tie xs)"

definition longestNameAggregate ::
  "(string \<times> nat \<times> nat \<Rightarrow> nat) \<Rightarrow> Record list \<Rightarrow> (string \<times> nat \<times> nat) list" where
  \<comment> \<open>the pipeline \<open>$project\<close> (name, createdAt, length), \<open>$sort\<close> by length descending,
      \<open>$limit\<close> 1\<close>
  "longestNameAggregate tie rs =
     take 1 (sortStage tie (\<lambda>(n, c, l). l)
               (map (\<lambda>r. (name r, createdAt r, strLenCP (name r))) rs))"

definition viewVaultStatistics ::
  "(string \<times> nat \<times> nat \<Rightarrow> nat) \<Rightarrow> (nat \<Rightarrow> string) \<Rightarrow> world \<Rightarrow> statistics \<times> world" where
  "viewVaultStatistics tie loc w =
     (let total = length (store w);
          lastModifiedRecord = findOne (sortDesc updatedAt (store w));
          earliestRecord = findOne (sortAsc createdAt (store w));
          latestRecord = findOne (sortDesc createdAt (store w));
          longestNameResult = longestNameAggregate tie (store w);
          longest = (case longestNameResult of [] \<Rightarrow> ''N/A'' | (n, c, l) # _ \<Rightarrow> orNA n);
          longestLength = (case longestNameResult of [] \<Rightarrow> 0 | (n, c, l) # _ \<Rightarrow> l)
      in (\<lparr>totalRecords = total,
           lastModification =
             (case lastModifiedRecord of None \<Rightarrow> ''N/A''
              | Some r \<Rightarrow> formatDate loc (Some (updatedAt r))),
           longestName = longest,
           longestNameLength = longestLength,
           earliestRecordDate =
             (case earliestRecord of None \<Rightarrow> ''N/A''
              | Some r \<Rightarrow> formatDate loc (Some (createdAt r))),
           latestRecordDate =
             (case latestRecord of None \<Rightarrow> ''N/A''
              | Some r \<Rightarrow> formatDate loc (Some (createdAt r)))\<rparr>,
          w\<lparr>queries := queries w @ [CountDocuments, FindOne, FindOne, FindOne, Aggregate]\<rparr>))"

subsection \<open>The menu loop\<close>

text \<open>
  \<open>main\<close> runs the actions one after the other, each to completion, on the world the
  previous one left: the worlds the program can be in are those reached from the
  initial one by any sequence of actions with any answers.
\<close>

inductive reachable :: "(string \<Rightarrow> objectid option) \<Rightarrow> (nat \<Rightarrow> string) \<Rightarrow> world \<Rightarrow> bool"
  for cast :: "string \<Rightarrow> objectid option" and loc :: "nat \<Rightarrow> string" where
  start: "reachable cast loc (initial t0)"
| add: "reachable cast loc w \<Longrightarrow>
     reachable cast loc (snd (addRecord nameAns detailsAns newId d1 d2 w))"
| update: "reachable cast loc w \<Longrightarrow>
     reachable cast loc (snd (updateRecord cast idAns nameAns detailsAns d w))"
| delete: "reachable cast loc w \<Longrightarrow>
     reachable cast loc (snd (deleteRecord cast idAns confirmAns d w))"
| list: "reachable cast loc w \<Longrightarrow> reachable cast loc (snd (listRecords w))"
| search: "reachable cast loc w \<Longrightarrow>
     reachable cast loc (snd (searchRecords cast choiceAns termAns w))"
| sort: "reachable cast loc w \<Longrightarrow> reachable cast loc (snd (sortRecords fieldAns orderAns w))"
| export: "reachable cast loc w \<Longrightarrow> reachable cast loc (exportData loc d w)"
| stats: "reachable cast loc w \<Longrightarrow> reachable cast loc (snd (viewVaultStatistics tie loc w))"

subsection \<open>What holds of every record in the collection\<close>

definition vault_inv :: "world \<Rightarrow> bool" where
  "vault_inv w =
     ((\<forall>r \<in> set (store w).
         name r \<noteq> [] \<and> trim (name r) = name r \<and>
         createdAt r \<le> updatedAt r \<and> updatedAt r \<le> clock w) \<and>
      distinct (map oid (store w)) \<and>
      sorted (map createdAt (store w)))"

subsection \<open>A sample session\<close>

definition routerId :: objectid where
  "routerId = ''000000000000000000000001''"

definition routerRecord :: Record where
  "routerRecord = \<lparr>oid = routerId, name = ''Router'', details = ''Home WiFi'',
                     createdAt = 1005, updatedAt = 1005\<rparr>"

definition routerWorld :: world where
  \<comment> \<open>the program started at time 1000, then one record added\<close>
  "routerWorld = snd (addRecord '' Router '' ''Home WiFi'' routerId 5 7 (initial 1000))"






subsection \<open>The backup directory\<close>


section \<open>Properties\<close>

subsection \<open>Trimming\<close>

lemma trim_no_leading: "dropWhile isSpace (trim s) = trim s"
proof (cases "dropWhile isSpace s")
  case Nil
  show ?thesis unfolding trim_def Nil by simp
next
  case (Cons x u)
  then have nx: "\<not> isSpace x" by (metis hd_dropWhile list.sel(1) list.distinct(1))
  have "trim s = x # rev (dropWhile isSpace (rev u))"
    using Cons nx by (simp add: trim_def dropWhile_append)
  then show ?thesis using nx by simp
qed

lemma trim_no_trailing: "dropWhile isSpace (rev (trim s)) = rev (trim s)"
  by (simp add: trim_def)

lemma trim_idem: "trim (trim s) = trim s"
proof -
  have "trim (trim s) = rev (dropWhile isSpace (rev (dropWhile isSpace (trim s))))"
    by (simp only: trim_def[of "trim s"])
  also have "\<dots> = rev (dropWhile isSpace (rev (trim s)))"
    by (simp only: trim_no_leading)
  also have "\<dots> = trim s"
    by (simp only: trim_no_trailing rev_rev_ident)
  finally show ?thesis .
qed

lemma sortAsc_Nil: "sortAsc key [] = []"
  by (simp add: sortAsc_def)

lemma sortDesc_Nil: "sortDesc key [] = []"
  by (simp add: sortDesc_def)

subsection \<open>Rejected input leaves the world as it was\<close>

text \<open>
  C6. A name that trims to the empty string (the empty string and every string of
  white space) makes addRecord fail with ValidationError, and the world it returns is
  the world it was given: no record is persisted, the collection is unchanged, no
  backup file is written and no request reaches the store.
\<close>

theorem addRecord_blank_name:
  "trim nameAns = [] \<Longrightarrow> addRecord nameAns detailsAns newId d1 d2 w = (Inl ValidationError, w)"
  by (simp add: addRecord_def)

theorem addRecord_blank_name_witness:
  "trim ''   '' = [] \<and>
   addRecord ''   '' ''x'' ''000000000000000000000001'' 5 5 (initial 0)
     = (Inl ValidationError, initial 0)"
proof -
  have h: "trim ''   '' = []" by code_simp
  show ?thesis using h addRecord_blank_name [OF h] by simp
qed

text \<open>
  C10. Whatever the id, when the answer to the confirmation prompt, trimmed and in
  lower case, is not \<open>y\<close>, deleteRecord returns the world unchanged: the collection, the
  files (so no backup) and the list of requests sent to the store (so no deletion
  query) are as before. It reports either the malformed id or the cancellation.
\<close>

theorem deleteRecord_unconfirmed:
  "toLowerCase (trim confirmAns) \<noteq> ''y'' \<Longrightarrow>
     snd (deleteRecord cast idAns confirmAns d w) = w \<and>
     (fst (deleteRecord cast idAns confirmAns d w) = Inl InvalidId \<or>
      fst (deleteRecord cast idAns confirmAns d w) = Inl Cancelled)"
  by (simp add: deleteRecord_def Let_def)

theorem deleteRecord_unconfirmed_witness:
  "toLowerCase (trim '' n '') \<noteq> ''y'' \<and>
   deleteRecord hexObjectId ''000000000000000000000001'' '' n '' 5 (initial 0)
     = (Inl Cancelled, initial 0)"
proof -
  have h: "toLowerCase (trim '' n '') \<noteq> ''y''" by code_simp
  have v: "isValidObjectId hexObjectId (trim ''000000000000000000000001'')" by code_simp
  show ?thesis
    using h v
      deleteRecord_unconfirmed [OF h, of hexObjectId "''000000000000000000000001''" 5 "initial 0"]
    by (simp add: deleteRecord_def Let_def)
qed

text \<open>
  C7, as the code has it. When the id, trimmed, is not in the identifier format,
  updateRecord and deleteRecord fail with InvalidId, and searchRecords by id fails with
  InvalidId when the id is not empty and with ValidationError ('ID is required.') when
  it is empty. In every case the world is returned unchanged, so nothing was sent to the
  store, and InvalidId is a failure different from NotFound.
\<close>

theorem malformed_id_rejected:
  "\<not> isValidObjectId cast (trim idAns) \<Longrightarrow>
     updateRecord cast idAns nameAns detailsAns d w = (Inl InvalidId, w) \<and>
     deleteRecord cast idAns confirmAns d w = (Inl InvalidId, w) \<and>
     searchRecords cast ''2'' idAns w =
       (if trim idAns = [] then (Inl ValidationError, w) else (Inl InvalidId, w)) \<and>
     InvalidId \<noteq> NotFound"
  by (simp add: updateRecord_def deleteRecord_def searchRecords_def Let_def trim_def isSpace_def)

theorem malformed_id_rejected_witness:
  "\<not> isValidObjectId hexObjectId (trim ''12-34'') \<and>
   updateRecord hexObjectId ''12-34'' ''n'' ''d'' 5 (initial 0) = (Inl InvalidId, initial 0) \<and>
   deleteRecord hexObjectId ''12-34'' ''y'' 5 (initial 0) = (Inl InvalidId, initial 0) \<and>
   searchRecords hexObjectId ''2'' ''12-34'' (initial 0) = (Inl InvalidId, initial 0)"
proof -
  have h: "\<not> isValidObjectId hexObjectId (trim ''12-34'')" by code_simp
  have t: "trim ''12-34'' \<noteq> []" by code_simp
  show ?thesis
    using h t malformed_id_rejected [OF h, of "''n''" "''d''" 5 "initial 0" "''y''"] by simp
qed

text \<open>
  The empty id is not in the identifier format, and the search by id answers it with
  'ID is required.', not with 'Invalid ID format.'.
\<close>

theorem search_empty_id_counterexample:
  "\<not> isValidObjectId hexObjectId (trim []) \<and>
   searchRecords hexObjectId ''2'' [] (initial 0) = (Inl ValidationError, initial 0) \<and>
   Inl ValidationError \<noteq> (Inl InvalidId :: error + Record list)"
  by (simp add: searchRecords_def Let_def trim_def isSpace_def isValidObjectId_def hexObjectId_def)

subsection \<open>Statistics\<close>

text \<open>
  C9. On an empty collection viewVaultStatistics returns its report: the total is 0,
  and the last modification, the longest name, the earliest and the latest record date
  all read 'N/A' (the longest name with length 0).
\<close>

theorem statistics_empty:
  "store w = [] \<Longrightarrow>
     fst (viewVaultStatistics tie loc w) =
       \<lparr>totalRecords = 0, lastModification = ''N/A'', longestName = ''N/A'',
        longestNameLength = 0, earliestRecordDate = ''N/A'', latestRecordDate = ''N/A''\<rparr>"
  by (simp add: viewVaultStatistics_def longestNameAggregate_def sortStage_def findOne_def
      sortAsc_Nil sortDesc_Nil)

theorem statistics_empty_witness:
  "store (initial 0) = [] \<and>
   fst (viewVaultStatistics (\<lambda>p. 0) toISOString (initial 0)) =
       \<lparr>totalRecords = 0, lastModification = ''N/A'', longestName = ''N/A'',
        longestNameLength = 0, earliestRecordDate = ''N/A'', latestRecordDate = ''N/A''\<rparr>"
proof -
  have h: "store (initial 0) = []" by (simp add: initial_def)
  show ?thesis
    using h statistics_empty [OF h, where tie = "\<lambda>p. 0" and loc = toISOString] by simp
qed

subsection \<open>The invariant of the collection\<close>

lemma vault_inv_Record_create:
  assumes "vault_inv w"
  shows "vault_inv (snd (Record_create newId d nm dt w))"
proof -
  have le: "\<forall>r \<in> set (store w). createdAt r \<le> clock w + d"
    using assms by (fastforce simp: vault_inv_def)
  show ?thesis
    using assms le
    by (auto simp: Record_create_def Let_def vault_inv_def trim_idem sorted_append
        intro: le_trans trans_le_add1)
qed

lemma vault_inv_createBackup: "vault_inv w \<Longrightarrow> vault_inv (createBackup d w)"
  by (auto simp: createBackup_def Let_def vault_inv_def intro: trans_le_add1)

lemma vault_inv_addRecord:
  "vault_inv w \<Longrightarrow> vault_inv (snd (addRecord nameAns detailsAns newId d1 d2 w))"
  using vault_inv_Record_create [of w newId d1 "trim nameAns" "trim detailsAns"]
  by (auto simp: addRecord_def Let_def vault_inv_createBackup split: prod.splits sum.splits)

lemma vault_inv_findById:
  "vault_inv w \<Longrightarrow> vault_inv (snd (findById cast v w))"
  by (auto simp: findById_def vault_inv_def split: option.splits)

lemma findById_Some:
  "findById cast v w = (Inr (Some r), w1) \<Longrightarrow>
     r \<in> set (store w) \<and> store w1 = store w \<and> clock w1 = clock w \<and> files w1 = files w"
  by (auto simp: findById_def find_Some_iff split: option.splits)

lemma map_createdAt_replace:
  "createdAt doc = createdAt orig \<Longrightarrow>
   \<forall>r\<in>set xs. oid r = oid orig \<longrightarrow> createdAt r = createdAt orig \<Longrightarrow>
   map createdAt (map (\<lambda>r. if oid r = oid orig then doc else r) xs) = map createdAt xs"
  by (induction xs) auto

lemma map_oid_replace:
  "oid doc = oid orig \<Longrightarrow>
   map oid (map (\<lambda>r. if oid r = oid orig then doc else r) xs) = map oid xs"
  by (induction xs) auto

lemma distinct_oid_unique:
  "distinct (map oid xs) \<Longrightarrow> r \<in> set xs \<Longrightarrow> x \<in> set xs \<Longrightarrow> oid x = oid r \<Longrightarrow> x = r"
  by (meson distinct_map inj_onD)

lemma vault_inv_save:
  assumes inv: "vault_inv w" and mem: "orig \<in> set (store w)"
    and nm: "name doc \<noteq> []" "trim (name doc) = name doc"
    and same: "oid doc = oid orig" "createdAt doc = createdAt orig" "updatedAt doc = updatedAt orig"
  shows "vault_inv (snd (save orig doc d w))"
proof (cases "name doc = name orig \<and> details doc = details orig")
  case True
  then show ?thesis using inv by (auto simp: save_def Let_def vault_inv_def intro: trans_le_add1)
next
  case False
  let ?doc' = "doc\<lparr>updatedAt := clock w + d\<rparr>"
  have uniq: "\<forall>r\<in>set (store w). oid r = oid orig \<longrightarrow> createdAt r = createdAt orig"
    using inv mem distinct_oid_unique [of "store w" orig] by (auto simp: vault_inv_def)
  have c: "map createdAt (map (\<lambda>r. if oid r = oid orig then ?doc' else r) (store w))
             = map createdAt (store w)"
    using map_createdAt_replace [of ?doc' orig "store w"] same uniq by simp
  have o: "map oid (map (\<lambda>r. if oid r = oid orig then ?doc' else r) (store w))
             = map oid (store w)"
    using map_oid_replace [of ?doc' orig "store w"] same by simp
  have st: "store (snd (save orig doc d w)) = map (\<lambda>r. if oid r = oid orig then ?doc' else r) (store w)"
    and ck: "clock (snd (save orig doc d w)) = clock w + d"
    using False by (auto simp: save_def Let_def)
  have crt: "createdAt orig \<le> clock w"
    using inv mem by (fastforce simp: vault_inv_def)
  have rec: "\<forall>r\<in>set (store (snd (save orig doc d w))).
         name r \<noteq> [] \<and> trim (name r) = name r \<and>
         createdAt r \<le> updatedAt r \<and> updatedAt r \<le> clock w + d"
    unfolding st using inv nm same crt by (auto simp: vault_inv_def intro: trans_le_add1)
  have d': "distinct (map oid (store (snd (save orig doc d w))))"
    unfolding st o using inv by (simp add: vault_inv_def)
  have s': "sorted (map createdAt (store (snd (save orig doc d w))))"
    unfolding st c using inv by (simp add: vault_inv_def)
  show ?thesis
    unfolding vault_inv_def ck using rec d' s' by blast
qed

lemma vault_inv_updateRecord:
  assumes "vault_inv w"
  shows "vault_inv (snd (updateRecord cast idAns nameAns detailsAns d w))"
proof (cases "isValidObjectId cast (trim idAns)")
  case False
  then show ?thesis using assms by (simp add: updateRecord_def)
next
  case True
  obtain res w1 where f: "findById cast (trim idAns) w = (res, w1)" by (cases "findById cast (trim idAns) w")
  have inv1: "vault_inv w1" using vault_inv_findById [OF assms, of cast "trim idAns"] f by simp
  show ?thesis
  proof (cases res)
    case (Inl e)
    then show ?thesis using True f inv1 by (simp add: updateRecord_def)
  next
    case (Inr ro)
    show ?thesis
    proof (cases ro)
      case None
      then show ?thesis using True f inv1 Inr by (simp add: updateRecord_def)
    next
      case (Some rcd)
      then have mem: "rcd \<in> set (store w1)"
        using findById_Some [of cast "trim idAns" w rcd w1] f Inr by simp
      have rn: "name rcd \<noteq> [] \<and> trim (name rcd) = name rcd"
        using inv1 mem by (auto simp: vault_inv_def)
      let ?r1 = "if trim nameAns \<noteq> [] then rcd\<lparr>name := trim nameAns\<rparr> else rcd"
      let ?r2 = "if trim detailsAns \<noteq> [] then ?r1\<lparr>details := trim detailsAns\<rparr> else ?r1"
      have "vault_inv (snd (save rcd ?r2 d w1))"
        using rn by (intro vault_inv_save [OF inv1 mem]) (auto simp: trim_idem)
      then show ?thesis
        using True f Inr Some by (simp add: updateRecord_def Let_def case_prod_unfold)
    qed
  qed
qed

lemma vault_inv_findByIdAndDelete:
  "vault_inv w \<Longrightarrow> vault_inv (snd (findByIdAndDelete cast v w))"
  by (auto simp: findByIdAndDelete_def vault_inv_def distinct_map_filter sorted_filter
      split: option.splits)

lemma vault_inv_deleteRecord:
  "vault_inv w \<Longrightarrow> vault_inv (snd (deleteRecord cast idAns confirmAns d w))"
  using vault_inv_findByIdAndDelete [of w cast "trim idAns"]
  by (auto simp: deleteRecord_def Let_def vault_inv_createBackup split: prod.splits sum.splits option.splits)

lemma vault_inv_queries: "vault_inv (w\<lparr>queries := q\<rparr>) = vault_inv w"
  by (simp add: vault_inv_def)

lemma vault_inv_listRecords: "vault_inv w \<Longrightarrow> vault_inv (snd (listRecords w))"
  by (simp add: listRecords_def vault_inv_queries)

lemma vault_inv_searchRecords:
  "vault_inv w \<Longrightarrow> vault_inv (snd (searchRecords cast choiceAns termAns w))"
  using vault_inv_findById [of w cast "trim termAns"]
  by (auto simp: searchRecords_def Let_def vault_inv_queries split: prod.splits sum.splits option.splits)

lemma vault_inv_sortRecords:
  "vault_inv w \<Longrightarrow> vault_inv (snd (sortRecords fieldAns orderAns w))"
  by (simp add: sortRecords_def Let_def vault_inv_queries)

lemma vault_inv_exportData: "vault_inv w \<Longrightarrow> vault_inv (exportData loc d w)"
  by (auto simp: exportData_def Let_def vault_inv_def intro: trans_le_add1)

lemma vault_inv_viewVaultStatistics:
  "vault_inv w \<Longrightarrow> vault_inv (snd (viewVaultStatistics tie loc w))"
  by (simp add: viewVaultStatistics_def Let_def vault_inv_queries)

lemma vault_inv_initial: "vault_inv (initial t0)"
  by (simp add: vault_inv_def initial_def)

lemma reachable_vault_inv: "reachable cast loc w \<Longrightarrow> vault_inv w"
  by (induction rule: reachable.induct)
    (simp_all add: vault_inv_initial vault_inv_addRecord vault_inv_updateRecord
      vault_inv_deleteRecord vault_inv_listRecords vault_inv_searchRecords vault_inv_sortRecords
      vault_inv_exportData vault_inv_viewVaultStatistics)

subsection \<open>updateRecord and addRecord\<close>

lemma save_result:
  "save orig doc d w = (r', w') \<Longrightarrow>
     name r' = name doc \<and> details r' = details doc \<and> oid r' = oid doc \<and>
     createdAt r' = createdAt doc \<and> files w' = files w \<and> clock w' = clock w + d \<and>
     (((name doc \<noteq> name orig \<or> details doc \<noteq> details orig) \<and>
       updatedAt r' = clock w + d \<and>
       store w' = map (\<lambda>x. if oid x = oid orig then r' else x) (store w) \<and>
       queries w' = queries w @ [UpdateOne (oid orig)]) \<or>
      (r' = doc \<and> store w' = store w \<and> queries w' = queries w \<and>
       name doc = name orig \<and> details doc = details orig))"
  by (auto simp: save_def Let_def split: if_splits)

lemma replace_same:
  "distinct (map oid xs) \<Longrightarrow> r \<in> set xs \<Longrightarrow>
     map (\<lambda>x. if oid x = oid r then r else x) xs = xs"
  by (rule map_idI) (auto dest: distinct_oid_unique)

lemma updateRecord_found:
  assumes inv: "vault_inv w" and c: "cast (trim idAns) = Some i"
    and f: "find (\<lambda>r. oid r = i) (store w) = Some r"
  shows "\<exists>r' w'. updateRecord cast idAns nameAns detailsAns d w = (Inr r', w') \<and>
           name r' = (if trim nameAns = [] then name r else trim nameAns) \<and>
           details r' = (if trim detailsAns = [] then details r else trim detailsAns) \<and>
           oid r' = oid r \<and> createdAt r' = createdAt r \<and>
           updatedAt r' =
             (if name r' = name r \<and> details r' = details r then updatedAt r else clock w + d) \<and>
           updatedAt r \<le> updatedAt r' \<and>
           store w' = map (\<lambda>x. if oid x = i then r' else x) (store w) \<and>
           files w' = files w"
proof -
  define w1 where "w1 = w\<lparr>queries := queries w @ [FindById i]\<rparr>"
  define r2 where "r2 =
    (let r1 = (if trim nameAns \<noteq> [] then r\<lparr>name := trim nameAns\<rparr> else r)
     in if trim detailsAns \<noteq> [] then r1\<lparr>details := trim detailsAns\<rparr> else r1)"
  obtain r' w' where s: "save r r2 d w1 = (r', w')" by (cases "save r r2 d w1")
  have mem: "r \<in> set (store w)" and ri: "oid r = i"
    using f by (auto simp: find_Some_iff)
  have up: "updateRecord cast idAns nameAns detailsAns d w = (Inr r', w')"
    using c f s by (simp add: updateRecord_def isValidObjectId_def findById_def Let_def w1_def r2_def)
  have bound: "updatedAt r \<le> clock w" and dist: "distinct (map oid (store w))"
    using inv mem by (auto simp: vault_inv_def)
  have w1: "store w1 = store w" "clock w1 = clock w" "files w1 = files w"
    by (simp_all add: w1_def)
  note sr = save_result [OF s]
  have fields: "name r2 = (if trim nameAns = [] then name r else trim nameAns)"
    "details r2 = (if trim detailsAns = [] then details r else trim detailsAns)"
    "oid r2 = oid r" "createdAt r2 = createdAt r" "updatedAt r2 = updatedAt r"
    by (simp_all add: r2_def Let_def)
  have same: "name r2 = name r \<Longrightarrow> details r2 = details r \<Longrightarrow> r2 = r"
    using fields(3-5) by (cases r, cases r2) simp
  have nd: "name r' = name r2" "details r' = details r2" using sr by simp_all
  from sr consider
    (changed) "name r2 \<noteq> name r \<or> details r2 \<noteq> details r"
      "updatedAt r' = clock w1 + d"
      "store w' = map (\<lambda>x. if oid x = oid r then r' else x) (store w1)"
  | (unchanged) "r' = r2" "store w' = store w1" "name r2 = name r" "details r2 = details r"
    by blast
  then have "updatedAt r' =
        (if name r' = name r \<and> details r' = details r then updatedAt r else clock w + d) \<and>
      updatedAt r \<le> updatedAt r' \<and>
      store w' = map (\<lambda>x. if oid x = i then r' else x) (store w)"
  proof cases
    case changed
    then show ?thesis using bound ri w1 nd by auto
  next
    case a: unchanged
    then have eq: "r' = r" using same by simp
    have "map (\<lambda>x. if oid x = i then r' else x) (store w) = store w"
      unfolding eq ri [symmetric] by (rule replace_same [OF dist mem])
    then show ?thesis using a(2) w1 eq by simp
  qed
  then show ?thesis
    using up sr fields w1 by (intro exI [of _ r'] exI [of _ w']) simp
qed

lemma updateRecord_missing:
  assumes c: "cast (trim idAns) = Some i"
    and f: "find (\<lambda>r. oid r = i) (store w) = None"
  shows "updateRecord cast idAns nameAns detailsAns d w
           = (Inl NotFound, w\<lparr>queries := queries w @ [FindById i]\<rparr>)"
  using c f by (simp add: updateRecord_def isValidObjectId_def findById_def Let_def)

text \<open>
  C5, as the code has it. In a world the program can reach, for an id that casts to an
  ObjectId: if no record has it, updateRecord fails with NotFound and the collection is
  as before; if the record \<open>r\<close> has it, updateRecord returns a record whose name is the
  trimmed name answer when that is not empty and the name of \<open>r\<close> otherwise, likewise
  for the details, and whose id and createdAt are those of \<open>r\<close>. Its updatedAt is the
  reading of the clock at the save when the name or the details came out different from
  those of \<open>r\<close>, and the updatedAt of \<open>r\<close> when neither did; in both cases it is not
  before that of \<open>r\<close>. The collection holds the returned record in the place of \<open>r\<close>.
  In particular a non-empty trimmed name \<open>X\<close> gives a record named \<open>X\<close>.
\<close>

theorem updateRecord_spec:
  assumes "reachable cast loc w" and "cast (trim idAns) = Some i"
  shows "(find (\<lambda>r. oid r = i) (store w) = None \<longrightarrow>
            fst (updateRecord cast idAns nameAns detailsAns d w) = Inl NotFound \<and>
            store (snd (updateRecord cast idAns nameAns detailsAns d w)) = store w) \<and>
         (\<forall>r. find (\<lambda>r. oid r = i) (store w) = Some r \<longrightarrow>
            (\<exists>r' w'. updateRecord cast idAns nameAns detailsAns d w = (Inr r', w') \<and>
               name r' = (if trim nameAns = [] then name r else trim nameAns) \<and>
               details r' = (if trim detailsAns = [] then details r else trim detailsAns) \<and>
               oid r' = oid r \<and> createdAt r' = createdAt r \<and>
               updatedAt r' =
                 (if name r' = name r \<and> details r' = details r then updatedAt r
                  else clock w + d) \<and>
               updatedAt r \<le> updatedAt r' \<and>
               store w' = map (\<lambda>x. if oid x = i then r' else x) (store w)))"
proof (intro conjI impI allI)
  assume "find (\<lambda>r. oid r = i) (store w) = None"
  then show "fst (updateRecord cast idAns nameAns detailsAns d w) = Inl NotFound"
    and "store (snd (updateRecord cast idAns nameAns detailsAns d w)) = store w"
    using updateRecord_missing [where cast = cast and idAns = idAns, OF assms(2)] by simp_all
next
  fix r assume "find (\<lambda>r. oid r = i) (store w) = Some r"
  from updateRecord_found [where cast = cast and idAns = idAns,
      OF reachable_vault_inv [OF assms(1)] assms(2) this]
  show "\<exists>r' w'. updateRecord cast idAns nameAns detailsAns d w = (Inr r', w') \<and>
               name r' = (if trim nameAns = [] then name r else trim nameAns) \<and>
               details r' = (if trim detailsAns = [] then details r else trim detailsAns) \<and>
               oid r' = oid r \<and> createdAt r' = createdAt r \<and>
               updatedAt r' =
                 (if name r' = name r \<and> details r' = details r then updatedAt r
                  else clock w + d) \<and>
               updatedAt r \<le> updatedAt r' \<and>
               store w' = map (\<lambda>x. if oid x = i then r' else x) (store w)"
    by blast
qed

lemma addRecord_success:
  "addRecord nameAns detailsAns newId d1 d2 w = (Inr r, w') \<Longrightarrow>
     r = \<lparr>oid = newId, name = trim nameAns, details = trim detailsAns,
          createdAt = clock w + d1, updatedAt = clock w + d1\<rparr> \<and>
     trim nameAns \<noteq> [] \<and> newId \<notin> oid ` set (store w) \<and>
     store w' = store w @ [r] \<and> clock w' = clock w + d1 + d2 \<and>
     files w' = (files w)(backupPath (clock w + d1 + d2) \<mapsto> Json (sortAsc createdAt (store w @ [r]))) \<and>
     queries w' = queries w @ [Insert, Find]"
  by (auto simp: addRecord_def Record_create_def createBackup_def Let_def trim_idem
      split: if_splits)

text \<open>
  C2. In every world the program can reach (after any sequence of the eight menu
  actions), every record of the collection has a name that is not empty after trimming
  and a createdAt not after its updatedAt; and a record that addRecord returns has
  createdAt equal to updatedAt, a non-empty name and an id no other record had.
\<close>

theorem record_invariant:
  assumes "reachable cast loc w"
  shows "(\<forall>r \<in> set (store w). trim (name r) \<noteq> [] \<and> createdAt r \<le> updatedAt r) \<and>
         (\<forall>r w'. addRecord nameAns detailsAns newId d1 d2 w = (Inr r, w') \<longrightarrow>
            createdAt r = updatedAt r \<and> trim (name r) \<noteq> [] \<and>
            oid r \<notin> oid ` set (store w) \<and> store w' = store w @ [r])"
proof (intro conjI allI impI)
  show "\<forall>r \<in> set (store w). trim (name r) \<noteq> [] \<and> createdAt r \<le> updatedAt r"
    using reachable_vault_inv [OF assms] by (auto simp: vault_inv_def)
next
  fix r w' assume a: "addRecord nameAns detailsAns newId d1 d2 w = (Inr r, w')"
  note s = addRecord_success [OF a]
  from s show "createdAt r = updatedAt r" by simp
  from s show "trim (name r) \<noteq> []" by (simp add: trim_idem)
  from s show "oid r \<notin> oid ` set (store w)" by simp
  from s show "store w' = store w @ [r]" by simp
qed

subsection \<open>The sample session\<close>

lemma reachable_routerWorld: "reachable cast loc routerWorld"
  unfolding routerWorld_def by (rule reachable.add [OF reachable.start])

lemma trim_Router: "trim '' Router '' = ''Router''"
  by code_simp

lemma trim_HomeWiFi: "trim ''Home WiFi'' = ''Home WiFi''"
  by code_simp

lemma trim_plain_Router: "trim ''Router'' = ''Router''"
  by code_simp

lemma store_routerWorld: "store routerWorld = [routerRecord]"
  by (simp add: routerWorld_def routerRecord_def addRecord_def Record_create_def
      createBackup_def initial_def Let_def trim_Router trim_HomeWiFi trim_plain_Router)

lemma clock_routerWorld: "clock routerWorld = 1012"
  by (simp add: routerWorld_def routerRecord_def addRecord_def Record_create_def
      createBackup_def initial_def Let_def trim_Router trim_HomeWiFi trim_plain_Router)

lemma cast_routerId: "hexObjectId (trim routerId) = Some routerId"
  unfolding routerId_def by code_simp

lemma cast_otherId:
  "hexObjectId (trim ''00000000000000000000000F'') = Some ''00000000000000000000000f''"
  by code_simp

theorem record_invariant_witness:
  "reachable hexObjectId toISOString routerWorld \<and>
   routerRecord \<in> set (store routerWorld) \<and>
   trim (name routerRecord) \<noteq> [] \<and>
   createdAt routerRecord \<le> updatedAt routerRecord"
proof -
  have m: "routerRecord \<in> set (store routerWorld)" by (simp add: store_routerWorld)
  show ?thesis
    using m reachable_routerWorld [of hexObjectId toISOString]
      record_invariant [where cast = hexObjectId and loc = toISOString and w = routerWorld,
        OF reachable_routerWorld]
    by blast
qed

theorem updateRecord_spec_witness:
  "reachable hexObjectId toISOString routerWorld \<and>
   hexObjectId (trim routerId) = Some routerId \<and>
   find (\<lambda>r. oid r = routerId) (store routerWorld) = Some routerRecord \<and>
   (\<exists>r' w'. updateRecord hexObjectId routerId ''Modem'' ''  '' 10 routerWorld = (Inr r', w') \<and>
      name r' = ''Modem'' \<and> details r' = ''Home WiFi'' \<and> createdAt r' = 1005 \<and>
      updatedAt r' = 1022 \<and> store w' = [r']) \<and>
   fst (updateRecord hexObjectId ''00000000000000000000000F'' ''Modem'' ''  '' 10 routerWorld)
     = Inl NotFound"
proof -
  have f: "find (\<lambda>r. oid r = routerId) (store routerWorld) = Some routerRecord"
    by (simp add: store_routerWorld routerRecord_def)
  have g: "find (\<lambda>r. oid r = ''00000000000000000000000f'') (store routerWorld) = None"
    by (simp add: store_routerWorld routerRecord_def routerId_def)
  have t1: "trim ''Modem'' = ''Modem''" and t2: "trim ''  '' = []" by code_simp+
  show ?thesis
    using f g t1 t2 cast_routerId reachable_routerWorld [of hexObjectId toISOString]
      updateRecord_spec [where cast = hexObjectId and loc = toISOString and idAns = routerId
        and nameAns = "''Modem''" and detailsAns = "''  ''" and d = 10,
        OF reachable_routerWorld cast_routerId]
      updateRecord_spec [where cast = hexObjectId and loc = toISOString
        and idAns = "''00000000000000000000000F''"
        and nameAns = "''Modem''" and detailsAns = "''  ''" and d = 10,
        OF reachable_routerWorld cast_otherId]
    by (auto simp: routerRecord_def store_routerWorld clock_routerWorld)
qed

text \<open>
  The name answered is the name the record already has and the details are left empty:
  the save sends nothing, and the record returned keeps the updatedAt 1005 although the
  clock reads 1022.
\<close>

theorem update_not_refreshed_counterexample:
  "updateRecord hexObjectId routerId ''Router'' [] 10 routerWorld =
     (Inr routerRecord,
      routerWorld\<lparr>clock := 1022, queries := queries routerWorld @ [FindById routerId]\<rparr>) \<and>
   updatedAt routerRecord = 1005 \<and> clock routerWorld = 1012"
  using cast_routerId
  by (simp add: updateRecord_def isValidObjectId_def findById_def save_def Let_def
      store_routerWorld clock_routerWorld trim_plain_Router trim_def [of "[]"]
      routerRecord_def)

subsection \<open>Backups\<close>
















subsection \<open>Two adds within one second\<close>








subsection \<open>Searching by name\<close>

lemma compile_literal:
  "set t \<inter> set metachars = {} \<Longrightarrow> compile t = Some (map Lit t)"
proof (induction t)
  case Nil
  then show ?case by simp
next
  case (Cons c cs)
  then have c: "c \<notin> set metachars" and cs: "set cs \<inter> set metachars = {}" by auto
  from c have "c \<noteq> CHR ''.''" by (auto simp: metachars_def)
  then show ?case using c Cons.IH [OF cs] by simp
qed

lemma matchHere_literal:
  "matchHere (map Lit t) s \<longleftrightarrow> prefix (toLowerCase t) (toLowerCase s)"
proof (induction t arbitrary: s)
  case Nil
  then show ?case by (simp add: toLowerCase_def)
next
  case (Cons c cs)
  show ?case
  proof (cases s)
    case Nil
    then show ?thesis by (simp add: toLowerCase_def)
  next
    case (Cons x xs)
    then show ?thesis using Cons.IH [of xs] by (auto simp: toLowerCase_def)
  qed
qed

lemma regexSearch_literal:
  "regexSearch (map Lit t) s \<longleftrightarrow> sublist (toLowerCase t) (toLowerCase s)"
proof (induction s)
  case Nil
  show ?case using matchHere_literal [of t "[]"] by (simp add: toLowerCase_def)
next
  case (Cons x xs)
  have "sublist (toLowerCase t) (toLowerCase (x # xs)) \<longleftrightarrow>
        prefix (toLowerCase t) (toLowerCase (x # xs)) \<or> sublist (toLowerCase t) (toLowerCase xs)"
    by (simp add: toLowerCase_def sublist_Cons_right)
  then show ?case using Cons.IH matchHere_literal [of t "x # xs"] by simp
qed

text \<open>
  C3, as the code has it. Searching by name rejects a term that trims to the empty
  string with ValidationError and leaves the world unchanged. A non-empty term is used
  as a regular expression without regard to case; when it holds none of the special
  characters of that syntax, the search returns exactly the records of the collection
  for which the term in lower case occurs as a substring of the name in lower case,
  sorted by createdAt ascending.
\<close>

theorem searchByName_spec:
  "trim choiceAns = ''1'' \<Longrightarrow>
     (trim termAns = [] \<longrightarrow> searchRecords cast choiceAns termAns w = (Inl ValidationError, w)) \<and>
     (trim termAns \<noteq> [] \<and> set (trim termAns) \<inter> set metachars = {} \<longrightarrow>
        (\<exists>rs w'. searchRecords cast choiceAns termAns w = (Inr rs, w') \<and> store w' = store w \<and>
           set rs = {r \<in> set (store w).
                      sublist (toLowerCase (trim termAns)) (toLowerCase (name r))} \<and>
           sorted (map createdAt rs)))"
proof (intro conjI impI)
  assume c: "trim choiceAns = ''1''" and e: "trim termAns = []"
  then show "searchRecords cast choiceAns termAns w = (Inl ValidationError, w)"
    by (simp add: searchRecords_def)
next
  assume c: "trim choiceAns = ''1''"
    and t: "trim termAns \<noteq> [] \<and> set (trim termAns) \<inter> set metachars = {}"
  let ?rs = "sortAsc createdAt
      (filter (\<lambda>r. regexSearch (map Lit (trim termAns)) (name r)) (store w))"
  have "searchRecords cast choiceAns termAns w = (Inr ?rs, w\<lparr>queries := queries w @ [Find]\<rparr>)"
    using c t by (simp add: searchRecords_def compile_literal)
  moreover have "set ?rs = {r \<in> set (store w).
      sublist (toLowerCase (trim termAns)) (toLowerCase (name r))}"
    by (auto simp: sortAsc_def regexSearch_literal)
  moreover have "sorted (map createdAt ?rs)" by (simp add: sortAsc_def)
  ultimately show "\<exists>rs w'. searchRecords cast choiceAns termAns w = (Inr rs, w') \<and>
      store w' = store w \<and>
      set rs = {r \<in> set (store w).
                 sublist (toLowerCase (trim termAns)) (toLowerCase (name r))} \<and>
      sorted (map createdAt rs)"
    by (intro exI [of _ ?rs] exI [of _ "w\<lparr>queries := queries w @ [Find]\<rparr>"]) simp
qed

lemma trim_one: "trim ''1'' = ''1''" and trim_pass: "trim ''ROUT'' = ''ROUT''"
  and trim_dot: "trim ''.'' = ''.''"
  by code_simp+

lemma lower_rout: "toLowerCase ''ROUT'' = ''rout''" and lower_Router: "toLowerCase ''Router'' = ''router''"
  and lower_dot: "toLowerCase ''.'' = ''.''"
  by code_simp+

theorem searchByName_spec_witness:
  "trim ''1'' = ''1'' \<and> trim ''ROUT'' \<noteq> [] \<and> set (trim ''ROUT'') \<inter> set metachars = {} \<and>
   sublist (toLowerCase (trim ''ROUT'')) (toLowerCase (name routerRecord)) \<and>
   (\<exists>rs w'. searchRecords hexObjectId ''1'' ''ROUT'' routerWorld = (Inr rs, w') \<and>
      set rs = {routerRecord}) \<and>
   searchRecords hexObjectId ''1'' ''  '' routerWorld = (Inl ValidationError, routerWorld)"
proof -
  have m: "set (trim ''ROUT'') \<inter> set metachars = {}"
    by (simp add: trim_pass metachars_def)
  have s: "sublist (toLowerCase (trim ''ROUT'')) (toLowerCase (name routerRecord))"
    by (simp add: trim_pass lower_rout lower_Router routerRecord_def sublist_Cons_right)
  have b: "trim ''  '' = []" by code_simp
  show ?thesis
    using m s b trim_one
      searchByName_spec [OF trim_one, where termAns = "''ROUT''" and cast = hexObjectId
        and w = routerWorld]
      searchByName_spec [OF trim_one, where termAns = "''  ''" and cast = hexObjectId
        and w = routerWorld]
    by (auto simp: store_routerWorld trim_pass)
qed

text \<open>
  The term \<open>.\<close> finds the record named Router, although the name holds no dot.
\<close>

theorem search_dot_counterexample:
  "searchRecords hexObjectId ''1'' ''.'' routerWorld
     = (Inr [routerRecord], routerWorld\<lparr>queries := queries routerWorld @ [Find]\<rparr>) \<and>
   routerRecord \<in> set (store routerWorld) \<and>
   \<not> sublist (toLowerCase ''.'') (toLowerCase (name routerRecord))"
  by (simp add: searchRecords_def trim_one trim_dot store_routerWorld routerRecord_def
      metachars_def sortAsc_def lower_dot lower_Router sublist_Cons_right)

subsection \<open>The longest name\<close>




















subsection \<open>The export file\<close>

lemma length_recordLines: "length (recordLines loc i r) = 7"
  by (simp add: recordLines_def)

lemma length_blocks:
  "length (concat (map (\<lambda>(index, r). recordLines loc index r) (enumerate n rs))) = 7 * length rs"
  by (induction rs arbitrary: n) (simp_all add: length_recordLines)

lemma block_at:
  "i < length rs \<Longrightarrow>
     take 7 (drop (7 * i) (concat (map (\<lambda>(index, r). recordLines loc index r) (enumerate n rs))))
       = recordLines loc (n + i) (rs ! i)"
proof (induction rs arbitrary: n i)
  case Nil
  then show ?case by simp
next
  case (Cons r rs)
  show ?case
  proof (cases i)
    case 0
    then show ?thesis by (simp add: length_recordLines)
  next
    case (Suc j)
    then have j: "j < length rs" using Cons.prems by simp
    have "7 * i - 7 = 7 * j" using Suc by simp
    then show ?thesis
      using Cons.IH [OF j, of "Suc n"] Suc by (simp add: length_recordLines)
  qed
qed

lemma basename_export: "basename EXPORT_FILE_PATH = ''export.txt''"
  by (simp add: basename_def EXPORT_FILE_PATH_def)

lemma files_exportData:
  "files (exportData loc d w) =
     (files w)(EXPORT_FILE_PATH \<mapsto> Text (exportText loc (clock w + d) (sortAsc createdAt (store w))))"
  by (simp add: exportData_def Let_def)

lemma store_exportData: "store (exportData loc d w) = store w"
  and clock_exportData: "clock (exportData loc d w) = clock w + d"
  by (simp_all add: exportData_def Let_def)

lemma splitLines_Nil: "splitLines [] = [[]]"
  by (simp add: splitLines_def)

lemma splitLines_Cons: "splitLines (c # cs) = splitLines_step c (splitLines cs)"
  by (simp add: splitLines_def)

lemma splitLines_not_Nil: "splitLines s \<noteq> []"
  by (induction s) (auto simp: splitLines_Nil splitLines_Cons splitLines_step_def split: list.splits)

lemma splitLines_line:
  "CHR 0x0A \<notin> set l \<Longrightarrow> splitLines (l @ CHR 0x0A # rest) = l # splitLines rest"
  by (induction l) (auto simp: splitLines_Cons splitLines_step_def)

lemma splitLines_last: "CHR 0x0A \<notin> set l \<Longrightarrow> splitLines l = [l]"
  by (induction l) (auto simp: splitLines_Nil splitLines_Cons splitLines_step_def)

lemma join_Cons_Cons: "join sep (x # y # ys) = x @ sep @ join sep (y # ys)"
  by (simp add: join_def)

lemma splitLines_join_then:
  "xs \<noteq> [] \<Longrightarrow> \<forall>l \<in> set xs. CHR 0x0A \<notin> set l \<Longrightarrow>
     splitLines (join [CHR 0x0A] xs @ CHR 0x0A # rest) = xs @ splitLines rest"
proof (induction xs rule: induct_list012)
  case 1
  then show ?case by simp
next
  case (2 x)
  then show ?case by (simp add: join_def splitLines_line)
next
  case (3 x y zs)
  have "splitLines (join [CHR 0x0A] (x # y # zs) @ CHR 0x0A # rest)
          = splitLines (x @ CHR 0x0A # (join [CHR 0x0A] (y # zs) @ CHR 0x0A # rest))"
    by (simp add: join_Cons_Cons)
  also have "\<dots> = x # splitLines (join [CHR 0x0A] (y # zs) @ CHR 0x0A # rest)"
    using 3(4) by (intro splitLines_line) simp
  also have "\<dots> = x # (y # zs) @ splitLines rest"
    using 3(2) 3(4) by simp
  finally show ?case by simp
qed

lemma splitLines_join:
  "xs \<noteq> [] \<Longrightarrow> \<forall>l \<in> set xs. CHR 0x0A \<notin> set l \<Longrightarrow> splitLines (join [CHR 0x0A] xs) = xs"
proof (induction xs rule: induct_list012)
  case 1
  then show ?case by simp
next
  case (2 x)
  then show ?case by (simp add: join_def splitLines_last)
next
  case (3 x y zs)
  have "splitLines (join [CHR 0x0A] (x # y # zs))
          = splitLines (x @ CHR 0x0A # join [CHR 0x0A] (y # zs))"
    by (simp add: join_Cons_Cons)
  also have "\<dots> = x # splitLines (join [CHR 0x0A] (y # zs))"
    using 3(4) by (intro splitLines_line) simp
  also have "\<dots> = x # y # zs" using 3(2) 3(4) by simp
  finally show ?case .
qed

lemma exportLines_Nil_iff: "exportLines loc rs = [] \<longleftrightarrow> rs = []"
proof -
  have "length (exportLines loc rs) = 7 * length rs"
    unfolding exportLines_def by (rule length_blocks)
  then show ?thesis by (metis length_0_conv mult_is_0 zero_neq_numeral)
qed

lemma splitLines_exportText:
  assumes "\<forall>l \<in> set (exportHeader loc now rs @ exportLines loc rs). CHR 0x0A \<notin> set l"
  shows "splitLines (exportText loc now rs) =
           exportHeader loc now rs @ [[]] @ (if rs = [] then [[]] else exportLines loc rs)"
proof -
  have h: "exportHeader loc now rs \<noteq> []" by (simp add: exportHeader_def)
  have "splitLines (exportText loc now rs) =
          splitLines (join [CHR 0x0A] (exportHeader loc now rs) @ CHR 0x0A #
                        (CHR 0x0A # join [CHR 0x0A] (exportLines loc rs)))"
    by (simp add: exportText_def)
  also have "\<dots> = exportHeader loc now rs @
                      splitLines (CHR 0x0A # join [CHR 0x0A] (exportLines loc rs))"
    using assms by (intro splitLines_join_then [OF h]) simp
  also have "splitLines (CHR 0x0A # join [CHR 0x0A] (exportLines loc rs)) =
               [] # splitLines (join [CHR 0x0A] (exportLines loc rs))"
    by (simp add: splitLines_Cons splitLines_step_def)
  also have "splitLines (join [CHR 0x0A] (exportLines loc rs)) =
               (if rs = [] then [[]] else exportLines loc rs)"
  proof (cases "rs = []")
    case True
    then show ?thesis by (simp add: exportLines_def join_def splitLines_Nil)
  next
    case False
    then have "exportLines loc rs \<noteq> []" by (simp add: exportLines_Nil_iff)
    then show ?thesis using assms False by (simp add: splitLines_join)
  qed
  finally show ?thesis by simp
qed

text \<open>
  C8. exportData writes the one path EXPORT_FILE_PATH and nothing else, and leaves the
  collection alone; after two exports in a row the files are those before the first with
  that one path holding the text of the second. Read line by line (no field holding a
  line feed), the text in the file is the header, an empty line and the record lines,
  in this order and with nothing else; the header gives the time of the export, the
  number of records and the file name export.txt; the record lines are seven per
  record, the block of the record at position \<open>i\<close> being its number \<open>i + 1\<close>, its id,
  name, details, creation and update dates and an empty line; the records are the whole
  collection sorted by createdAt ascending, which in a world the program can reach is
  the collection in insertion order.
\<close>

theorem exportData_spec:
  "files (exportData loc d w) =
     (files w)(EXPORT_FILE_PATH \<mapsto> Text (exportText loc (clock w + d) (sortAsc createdAt (store w)))) \<and>
   store (exportData loc d w) = store w \<and>
   files (exportData loc d2 (exportData loc d1 w)) =
     (files w)(EXPORT_FILE_PATH \<mapsto>
        Text (exportText loc (clock w + d1 + d2) (sortAsc createdAt (store w)))) \<and>
   dom (files (exportData loc d2 (exportData loc d1 w))) = insert EXPORT_FILE_PATH (dom (files w)) \<and>
   ((\<forall>l \<in> set (exportHeader loc (clock w + d) (sortAsc createdAt (store w)) @
                  exportLines loc (sortAsc createdAt (store w))). CHR 0x0A \<notin> set l) \<longrightarrow>
    (\<exists>t. files (exportData loc d w) EXPORT_FILE_PATH = Some (Text t) \<and>
         splitLines t =
           exportHeader loc (clock w + d) (sortAsc createdAt (store w)) @ [[]] @
           (if store w = [] then [[]] else exportLines loc (sortAsc createdAt (store w))))) \<and>
   exportHeader loc now rs =
     [''Export Timestamp: '' @ loc now, ''Total Records: '' @ decimal (length rs),
      ''File: export.txt'', ''------------------------------''] \<and>
   length (exportLines loc rs) = 7 * length rs \<and>
   (\<forall>i < length rs.
      take 7 (drop (7 * i) (exportLines loc rs)) =
        [''#'' @ decimal (i + 1), ''ID: '' @ oid (rs ! i), ''Name: '' @ name (rs ! i),
         ''Details: '' @ (if details (rs ! i) = [] then ''N/A'' else details (rs ! i)),
         ''Created: '' @ loc (createdAt (rs ! i)), ''Updated: '' @ loc (updatedAt (rs ! i)), []]) \<and>
   sorted (map createdAt (sortAsc createdAt (store w))) \<and>
   mset (sortAsc createdAt (store w)) = mset (store w) \<and>
   (reachable cast loc w \<longrightarrow> sortAsc createdAt (store w) = store w)"
proof (intro conjI allI impI)
  show "files (exportData loc d w) =
     (files w)(EXPORT_FILE_PATH \<mapsto> Text (exportText loc (clock w + d) (sortAsc createdAt (store w))))"
    by (rule files_exportData)
  show "store (exportData loc d w) = store w" by (rule store_exportData)
  show two: "files (exportData loc d2 (exportData loc d1 w)) =
     (files w)(EXPORT_FILE_PATH \<mapsto>
        Text (exportText loc (clock w + d1 + d2) (sortAsc createdAt (store w))))"
    by (simp add: files_exportData store_exportData clock_exportData)
  show "dom (files (exportData loc d2 (exportData loc d1 w))) = insert EXPORT_FILE_PATH (dom (files w))"
    unfolding two by simp
  show "exportHeader loc now rs =
     [''Export Timestamp: '' @ loc now, ''Total Records: '' @ decimal (length rs),
      ''File: export.txt'', ''------------------------------'']"
    unfolding exportHeader_def basename_export by (simp add: formatDate_def)
  show "length (exportLines loc rs) = 7 * length rs"
    unfolding exportLines_def by (rule length_blocks)
  show "sorted (map createdAt (sortAsc createdAt (store w)))"
    and "mset (sortAsc createdAt (store w)) = mset (store w)"
    by (simp_all add: sortAsc_def)
next
  assume lf: "\<forall>l \<in> set (exportHeader loc (clock w + d) (sortAsc createdAt (store w)) @
                  exportLines loc (sortAsc createdAt (store w))). CHR 0x0A \<notin> set l"
  have e: "sortAsc createdAt (store w) = [] \<longleftrightarrow> store w = []"
    by (metis sortAsc_def set_sort set_empty)
  have "files (exportData loc d w) EXPORT_FILE_PATH =
          Some (Text (exportText loc (clock w + d) (sortAsc createdAt (store w))))"
    by (simp add: files_exportData)
  moreover have "splitLines (exportText loc (clock w + d) (sortAsc createdAt (store w))) =
      exportHeader loc (clock w + d) (sortAsc createdAt (store w)) @ [[]] @
      (if store w = [] then [[]] else exportLines loc (sortAsc createdAt (store w)))"
    using splitLines_exportText [OF lf] e by simp
  ultimately show "\<exists>t. files (exportData loc d w) EXPORT_FILE_PATH = Some (Text t) \<and>
         splitLines t =
           exportHeader loc (clock w + d) (sortAsc createdAt (store w)) @ [[]] @
           (if store w = [] then [[]] else exportLines loc (sortAsc createdAt (store w)))"
    by blast
next
  fix i assume "i < length rs"
  from block_at [OF this, of loc 0]
  have "take 7 (drop (7 * i) (exportLines loc rs)) = recordLines loc i (rs ! i)"
    unfolding exportLines_def by simp
  then show "take 7 (drop (7 * i) (exportLines loc rs)) =
        [''#'' @ decimal (i + 1), ''ID: '' @ oid (rs ! i), ''Name: '' @ name (rs ! i),
         ''Details: '' @ (if details (rs ! i) = [] then ''N/A'' else details (rs ! i)),
         ''Created: '' @ loc (createdAt (rs ! i)), ''Updated: '' @ loc (updatedAt (rs ! i)), []]"
    by (simp add: recordLines_def orNA_def formatDate_def)
next
  assume "reachable cast loc w"
  then have "sorted (map createdAt (store w))"
    using reachable_vault_inv by (auto simp: vault_inv_def)
  then show "sortAsc createdAt (store w) = store w"
    unfolding sortAsc_def by (rule sort_key_id_if_sorted)
qed

lemma decimal_values: "decimal 1005 = ''1005''" "decimal 1022 = ''1022''"
  "decimal (Suc 0) = ''1''" "decimal 1 = ''1''"
  by (simp_all add: decimal.simps [of 1005] decimal.simps [of 1022] decimal.simps [of 100]
      decimal.simps [of 102] decimal.simps [of 10] decimal.simps [of 1]
      decimal.simps [of "Suc 0"] digit_def)

lemma header_router:
  "exportHeader decimal 1022 [routerRecord] =
     [''Export Timestamp: 1022'', ''Total Records: 1'', ''File: export.txt'',
      ''------------------------------'']"
  by (simp add: exportHeader_def basename_export formatDate_def decimal_values)

lemma lines_router:
  "exportLines decimal [routerRecord] =
     [''#1'', ''ID: 000000000000000000000001'', ''Name: Router'', ''Details: Home WiFi'',
      ''Created: 1005'', ''Updated: 1005'', []]"
  by (simp add: exportLines_def recordLines_def orNA_def formatDate_def decimal_values
      routerRecord_def routerId_def)

theorem exportData_spec_witness:
  "reachable hexObjectId decimal routerWorld \<and>
   sortAsc createdAt (store routerWorld) = [routerRecord] \<and>
   files (exportData decimal 10 routerWorld) EXPORT_FILE_PATH =
     Some (Text (''Export Timestamp: 1022'' @ [CHR 0x0A] @ ''Total Records: 1'' @ [CHR 0x0A] @
       ''File: export.txt'' @ [CHR 0x0A] @ ''------------------------------'' @
       [CHR 0x0A, CHR 0x0A] @
       ''#1'' @ [CHR 0x0A] @ ''ID: 000000000000000000000001'' @ [CHR 0x0A] @
       ''Name: Router'' @ [CHR 0x0A] @ ''Details: Home WiFi'' @ [CHR 0x0A] @
       ''Created: 1005'' @ [CHR 0x0A] @ ''Updated: 1005'' @ [CHR 0x0A])) \<and>
   (\<exists>t. files (exportData decimal 10 routerWorld) EXPORT_FILE_PATH = Some (Text t) \<and>
      splitLines t =
        [''Export Timestamp: 1022'', ''Total Records: 1'', ''File: export.txt'',
         ''------------------------------'', [],
         ''#1'', ''ID: 000000000000000000000001'', ''Name: Router'', ''Details: Home WiFi'',
         ''Created: 1005'', ''Updated: 1005'', []]) \<and>
   take 7 (drop (7 * 0) (exportLines decimal [routerRecord])) =
     [''#1'', ''ID: 000000000000000000000001'', ''Name: Router'', ''Details: Home WiFi'',
      ''Created: 1005'', ''Updated: 1005'', []]"
proof -
  have r: "reachable hexObjectId decimal routerWorld" by (rule reachable_routerWorld)
  note e = exportData_spec [where cast = hexObjectId and loc = decimal and w = routerWorld
      and rs = "[routerRecord]" and d = 10]
  from e r have s: "sortAsc createdAt (store routerWorld) = [routerRecord]"
    by (simp add: store_routerWorld)
  have lf: "\<forall>l \<in> set (exportHeader decimal (clock routerWorld + 10)
                    (sortAsc createdAt (store routerWorld)) @
                  exportLines decimal (sortAsc createdAt (store routerWorld))). CHR 0x0A \<notin> set l"
    unfolding s clock_routerWorld by (simp add: header_router lines_router)
  from e lf obtain t where t: "files (exportData decimal 10 routerWorld) EXPORT_FILE_PATH = Some (Text t)"
    "splitLines t =
       exportHeader decimal (clock routerWorld + 10) (sortAsc createdAt (store routerWorld)) @ [[]] @
       (if store routerWorld = [] then [[]]
        else exportLines decimal (sortAsc createdAt (store routerWorld)))"
    by blast
  have t2: "splitLines t =
        [''Export Timestamp: 1022'', ''Total Records: 1'', ''File: export.txt'',
         ''------------------------------'', [],
         ''#1'', ''ID: 000000000000000000000001'', ''Name: Router'', ''Details: Home WiFi'',
         ''Created: 1005'', ''Updated: 1005'', []]"
    using t(2) unfolding s clock_routerWorld
    by (simp add: header_router lines_router store_routerWorld)
  have f: "files (exportData decimal 10 routerWorld) EXPORT_FILE_PATH =
     Some (Text (''Export Timestamp: 1022'' @ [CHR 0x0A] @ ''Total Records: 1'' @ [CHR 0x0A] @
       ''File: export.txt'' @ [CHR 0x0A] @ ''------------------------------'' @
       [CHR 0x0A, CHR 0x0A] @
       ''#1'' @ [CHR 0x0A] @ ''ID: 000000000000000000000001'' @ [CHR 0x0A] @
       ''Name: Router'' @ [CHR 0x0A] @ ''Details: Home WiFi'' @ [CHR 0x0A] @
       ''Created: 1005'' @ [CHR 0x0A] @ ''Updated: 1005'' @ [CHR 0x0A]))"
    using e unfolding s clock_routerWorld
    by (simp add: exportText_def header_router lines_router join_def)
  have b: "take 7 (drop (7 * 0) (exportLines decimal [routerRecord])) =
     [''#1'', ''ID: 000000000000000000000001'', ''Name: Router'', ''Details: Home WiFi'',
      ''Created: 1005'', ''Updated: 1005'', []]"
    by (simp add: lines_router)
  show ?thesis using r s f t(1) t2 b by blast
qed

end
